theory Spec2Isabelle
  imports Main "HOL-Library.Sublist"
begin

section \<open>JavaScript strings\<close>

text \<open>
  A JavaScript string is a sequence of UTF-16 code units. The model covers the strings
  whose code units lie in U+0000..U+00FF, one \<^typ>\<open>char\<close> per code unit. On that range
  the white space of \<^verbatim>\<open>String.prototype.trim\<close> and of the regular expression class
  \<^verbatim>\<open>\s\<close> is U+0009..U+000D, U+0020 and U+00A0, and \<^verbatim>\<open>toLowerCase\<close> moves
  A..Z and U+00C0..U+00DE (without the multiplication sign U+00D7) up by 32.
\<close>

definition isWhiteSpace :: "char \<Rightarrow> bool" where
  "isWhiteSpace c =
     (c \<in> {CHR 0x09, CHR 0x0A, CHR 0x0B, CHR 0x0C, CHR 0x0D, CHR 0x20, CHR 0xA0})"

definition trim :: "string \<Rightarrow> string" where
  "trim s = rev (dropWhile isWhiteSpace (rev (dropWhile isWhiteSpace s)))"

definition toLowerChar :: "char \<Rightarrow> char" where
  "toLowerChar c =
     (let n = (of_char c :: nat)
      in if (65 \<le> n \<and> n \<le> 90) \<or> (192 \<le> n \<and> n \<le> 222 \<and> n \<noteq> 215)
         then char_of (n + 32) else c)"

definition toLowerCase :: "string \<Rightarrow> string" where
  "toLowerCase s = map toLowerChar s"

text \<open>\<^verbatim>\<open>s.includes(sub)\<close>: \<open>sub\<close> occurs in \<open>s\<close> at some position.\<close>

fun includes_str :: "string \<Rightarrow> string \<Rightarrow> bool" where
  "includes_str [] sub = (sub = [])"
| "includes_str (c # cs) sub = (prefix sub (c # cs) \<or> includes_str cs sub)"

subsection \<open>The regular expression of the email check\<close>

text \<open>
  \<^verbatim>\<open>/^[^\s@]+@[^\s@]+\.[^\s@]+$/\<close> is a sequence of five items between the two
  anchors: each item is one atom, or one atom repeated one or more times. \<open>matches\<close>
  is the backtracking matcher for such a sequence, anchored at both ends.
\<close>

datatype atom = Lit char | NotSpaceAt

datatype item = One atom | Many atom

fun atom_ok :: "atom \<Rightarrow> char \<Rightarrow> bool" where
  "atom_ok (Lit l) c = (c = l)"
| "atom_ok NotSpaceAt c = (\<not> isWhiteSpace c \<and> c \<noteq> CHR ''@'')"

fun matches :: "item list \<Rightarrow> string \<Rightarrow> bool" where
  "matches [] s = (s = [])"
| "matches (One a # is) [] = False"
| "matches (One a # is) (c # cs) = (atom_ok a c \<and> matches is cs)"
| "matches (Many a # is) [] = False"
| "matches (Many a # is) (c # cs) =
     (atom_ok a c \<and> (matches (Many a # is) cs \<or> matches is cs))"

definition emailRegex :: "item list" where
  "emailRegex =
     [Many NotSpaceAt, One (Lit (CHR ''@'')), Many NotSpaceAt, One (Lit (CHR ''.'')),
      Many NotSpaceAt]"

definition emailRegex_test :: "string \<Rightarrow> bool" where
  "emailRegex_test s = matches emailRegex s"

section \<open>The object store\<close>

text \<open>
  The record of the form (lines 71-77) has the five business fields; a stored record has
  the key \<^verbatim>\<open>id\<close> as well (\<open>id_key\<close> here, since \<open>id\<close> is the identity function of HOL).
\<close>

record fields =
  studentId :: string
  fullname :: string
  email :: string
  course :: string
  yearLevel :: string

record student = fields +
  id_key :: int

definition with_id :: "fields \<Rightarrow> int \<Rightarrow> student" where
  "with_id f k =
     \<lparr>studentId = studentId f, fullname = fullname f, email = email f, course = course f,
      yearLevel = yearLevel f, id_key = k\<rparr>"

text \<open>
  \<open>initDB\<close> creates the object store \<^verbatim>\<open>students\<close> with key path \<^verbatim>\<open>id\<close>, a key
  generator (\<^verbatim>\<open>autoIncrement\<close>) and a unique index on \<^verbatim>\<open>studentId\<close>; the other three
  indexes are not unique and are never read. The engine is IndexedDB: the records are
  kept in ascending key order, \<open>keygen\<close> is the current number of the key generator, and a
  write that would give the unique index two records with one \<^verbatim>\<open>studentId\<close> fails
  with a \<^verbatim>\<open>ConstraintError\<close> and leaves the store as it was. Keys are integers.
  The key generator issues no key once its number has passed \<open>2^53\<close>: the add then
  fails with a \<^verbatim>\<open>ConstraintError\<close> too. A put with an explicit key \<open>k\<close> moves the
  generator's number up to \<open>min k (2^53) + 1\<close> when that is more than it was.
\<close>

record store =
  records :: "student list"
  keygen :: int

datatype dberror = ConstraintError | ReadError

definition maxGeneratedKey :: int where
  "maxGeneratedKey = 2 ^ 53"

definition initDB :: store where
  "initDB = \<lparr>records = [], keygen = 1\<rparr>"

definition objectStore_get :: "store \<Rightarrow> int \<Rightarrow> student option" where
  "objectStore_get s k = find (\<lambda>r. id_key r = k) (records s)"

text \<open>
  \<^verbatim>\<open>index.get(studentId)\<close> (line 125): the record of the index with that key, the one
  with the lowest primary key if there were several. The request may also fail
  (\<^verbatim>\<open>request.onerror\<close>, line 142); \<open>fails\<close> says that it does.
\<close>

definition index_get :: "bool \<Rightarrow> store \<Rightarrow> string \<Rightarrow> dberror + student option" where
  "index_get fails s k =
     (if fails then Inl ReadError else Inr (find (\<lambda>r. studentId r = k) (records s)))"

definition objectStore_add :: "store \<Rightarrow> fields \<Rightarrow> dberror + store" where
  "objectStore_add s f =
     (let k = keygen s
      in if maxGeneratedKey < k then Inl ConstraintError
         else if list_ex (\<lambda>r. id_key r = k) (records s)
            \<or> list_ex (\<lambda>r. studentId r = studentId f) (records s)
         then Inl ConstraintError
         else Inr \<lparr>records = insort_key id_key (with_id f k) (records s), keygen = k + 1\<rparr>)"

definition objectStore_put :: "store \<Rightarrow> student \<Rightarrow> dberror + store" where
  "objectStore_put s r =
     (let others = filter (\<lambda>x. id_key x \<noteq> id_key r) (records s)
      in if list_ex (\<lambda>x. studentId x = studentId r) others
         then Inl ConstraintError
         else Inr \<lparr>records = insort_key id_key r others,
                   keygen = max (keygen s) (min (id_key r) maxGeneratedKey + 1)\<rparr>)"

definition objectStore_delete :: "store \<Rightarrow> int \<Rightarrow> dberror + store" where
  "objectStore_delete s k = Inr (s\<lparr>records := filter (\<lambda>x. id_key x \<noteq> k) (records s)\<rparr>)"

definition openCursor :: "store \<Rightarrow> student list" where
  "openCursor s = records s"

section \<open>The page\<close>

text \<open>
  The hidden input \<^verbatim>\<open>recordId\<close> holds the empty string (\<open>None\<close>) or the decimal
  numeral that \<open>prepareUpdateForm\<close> wrote from a record's key (\<open>Some k\<close>, what
  \<^verbatim>\<open>parseInt\<close> reads back). \<^verbatim>\<open>dataset.originalId\<close> is undefined (\<open>None\<close>) until it
  is first written.
\<close>

record form_state =
  recordId :: "int option"
  originalId :: "string option"
  studentId_value :: string
  fullname_value :: string
  email_value :: string
  course_value :: string
  yearLevel_value :: string

record app =
  db :: store
  form :: form_state

datatype kind = MsgSuccess | MsgError

datatype row = RecordRow student | NoMatchRow string | NoRecordsRow

text \<open>
  What a call of \<open>displayRecords\<close> leaves in the table body: the rows, or nothing when
  the call threw after it had emptied the table.
\<close>

datatype display = Rendered "row list" | Threw

text \<open>The calls a handler makes, in the order it makes them.\<close>

datatype event =
    ShowMessage string kind
  | IndexGet string
  | StoreGet int
  | StoreAdd fields
  | StorePut student
  | StoreDelete int
  | Display display

text \<open>
  The argument of \<open>displayRecords\<close>: none (lines 37, 171, 286), the text of the search
  box (line 344), or the event object that \<^verbatim>\<open>transaction.oncomplete\<close> passes to its
  handler (line 317).
\<close>

datatype jsval = Undefined | Str string | EventObject

definition showMessage :: "string \<Rightarrow> kind \<Rightarrow> event list" where
  "showMessage message type = [ShowMessage message type]"

definition isStudentIdUnique :: "bool \<Rightarrow> store \<Rightarrow> string \<Rightarrow> int option \<Rightarrow> bool" where
  "isStudentIdUnique fails s sid excludeId =
     (case index_get fails s sid of
        Inr None \<Rightarrow> True
      | Inr (Some existingRecord) \<Rightarrow>
          (if Some (id_key existingRecord) = excludeId then True else False)
      | Inl e \<Rightarrow> False)"

definition matchesFilter :: "string \<Rightarrow> student \<Rightarrow> bool" where
  "matchesFilter filter_text data =
     (filter_text = []
      \<or> includes_str (toLowerCase (fullname data)) filter_text
      \<or> includes_str (toLowerCase (studentId data)) filter_text
      \<or> includes_str (toLowerCase (course data)) filter_text)"

fun cursorRows :: "string \<Rightarrow> student list \<Rightarrow> row list" where
  "cursorRows filter_text [] = []"
| "cursorRows filter_text (data # rest) =
     (if matchesFilter filter_text data
      then RecordRow data # cursorRows filter_text rest
      else cursorRows filter_text rest)"

definition displayRecords :: "store \<Rightarrow> jsval \<Rightarrow> display" where
  "displayRecords s arg =
     (case (case arg of Undefined \<Rightarrow> Str [] | v \<Rightarrow> v) of
        Str filterText \<Rightarrow>
          (let filter_text = toLowerCase filterText;
               rows = cursorRows filter_text (openCursor s)
           in Rendered
                (if rows = [] \<and> filter_text \<noteq> [] then [NoMatchRow filterText]
                 else if rows = [] then [NoRecordsRow]
                 else rows))
      | _ \<Rightarrow> Threw)"

text \<open>
  \<^verbatim>\<open>form.reset()\<close> puts every control back to its default, which the markup of the page
  fixes; the model takes the empty string.
\<close>

definition resetForm :: "app \<Rightarrow> app \<times> event list" where
  "resetForm st =
     (st\<lparr>form := \<lparr>recordId = None, originalId = Some [], studentId_value = [],
                  fullname_value = [], email_value = [], course_value = [],
                  yearLevel_value = []\<rparr>\<rparr>,
      showMessage ''Form reset.'' MsgSuccess)"

definition createRecord :: "app \<Rightarrow> fields \<Rightarrow> app \<times> event list" where
  "createRecord st record =
     (case objectStore_add (db st) record of
        Inr s' \<Rightarrow>
          (let (st', evs) = resetForm (st\<lparr>db := s'\<rparr>)
           in (st', StoreAdd record
                    # showMessage ''Student record added successfully!'' MsgSuccess
                    @ evs @ [Display (displayRecords s' Undefined)]))
      | Inl e \<Rightarrow>
          (st, StoreAdd record
               # showMessage ''Failed to add record. Student ID might already exist.''
                   MsgError))"

definition updateRecord :: "app \<Rightarrow> student \<Rightarrow> app \<times> event list" where
  "updateRecord st record =
     (case objectStore_put (db st) record of
        Inr s' \<Rightarrow>
          (let (st', evs) = resetForm (st\<lparr>db := s'\<rparr>)
           in (st', StorePut record
                    # showMessage
                        (''Record for '' @ fullname record @ '' updated successfully!'')
                        MsgSuccess
                    @ evs @ [Display (displayRecords s' Undefined)]))
      | Inl e \<Rightarrow> (st, StorePut record # showMessage ''Failed to update record.'' MsgError))"

definition deleteRecord :: "app \<Rightarrow> int \<Rightarrow> app \<times> event list" where
  "deleteRecord st k =
     (case objectStore_delete (db st) k of
        Inr s' \<Rightarrow>
          (st\<lparr>db := s'\<rparr>,
           StoreDelete k # showMessage ''Record deleted successfully!'' MsgSuccess
           @ [Display (displayRecords s' EventObject)])
      | Inl e \<Rightarrow> (st, StoreDelete k # showMessage ''Failed to delete record.'' MsgError))"

definition confirmDelete :: "app \<Rightarrow> int \<Rightarrow> bool \<Rightarrow> app \<times> event list" where
  "confirmDelete st k confirmed = (if confirmed then deleteRecord st k else (st, []))"

definition prepareUpdateForm :: "app \<Rightarrow> int \<Rightarrow> app \<times> event list" where
  "prepareUpdateForm st k =
     (case objectStore_get (db st) k of
        Some data \<Rightarrow>
          (st\<lparr>form := \<lparr>recordId = Some (id_key data), originalId = Some (studentId data),
                       studentId_value = studentId data, fullname_value = fullname data,
                       email_value = email data, course_value = course data,
                       yearLevel_value = yearLevel data\<rparr>\<rparr>,
           StoreGet k
           # showMessage (''Editing record for '' @ fullname data @ ''.'') MsgSuccess)
      | None \<Rightarrow> (st, StoreGet k # showMessage ''Record not found for editing.'' MsgError))"

text \<open>
  The loop of lines 80-85 over the keys of the record, in the order they were written
  into it: the first key whose value is the empty string.
\<close>

definition entries :: "fields \<Rightarrow> (string \<times> string) list" where
  "entries record =
     [(''studentId'', studentId record), (''fullname'', fullname record),
      (''email'', email record), (''course'', course record),
      (''yearLevel'', yearLevel record)]"

fun firstEmpty :: "(string \<times> string) list \<Rightarrow> string option" where
  "firstEmpty [] = None"
| "firstEmpty ((key, v) # rest) = (if v = [] then Some key else firstEmpty rest)"

definition formRecord :: "form_state \<Rightarrow> fields" where
  "formRecord f =
     \<lparr>studentId = trim (studentId_value f), fullname = trim (fullname_value f),
      email = trim (email_value f), course = course_value f,
      yearLevel = yearLevel_value f\<rparr>"

text \<open>
  The uniqueness check runs when the hidden input is empty, or when it is not and the
  cached original differs from the submitted \<^verbatim>\<open>studentId\<close> (line 95).
\<close>

definition needsUniqueCheck :: "form_state \<Rightarrow> string \<Rightarrow> bool" where
  "needsUniqueCheck f sid =
     (recordId f = None \<or> (recordId f \<noteq> None \<and> originalId f \<noteq> Some sid))"

definition form_onsubmit :: "bool \<Rightarrow> app \<Rightarrow> app \<times> event list" where
  "form_onsubmit fails st =
     (let record = formRecord (form st)
      in case firstEmpty (entries record) of
           Some key \<Rightarrow> (st, showMessage (''Please fill out the '' @ key @ '' field.'') MsgError)
         | None \<Rightarrow>
             if \<not> emailRegex_test (email record)
             then (st, showMessage ''Please enter a valid email address.'' MsgError)
             else if needsUniqueCheck (form st) (studentId record)
             then
               (if \<not> isStudentIdUnique fails (db st) (studentId record) (recordId (form st))
                then (st, IndexGet (studentId record)
                          # showMessage
                              (''Student ID '' @ studentId record @ '' already exists.'')
                              MsgError)
                else
                  (let (st', evs) =
                         (case recordId (form st) of
                            Some k \<Rightarrow> updateRecord st (with_id record k)
                          | None \<Rightarrow> createRecord st record)
                   in (st', IndexGet (studentId record) # evs)))
             else
               (case recordId (form st) of
                  Some k \<Rightarrow> updateRecord st (with_id record k)
                | None \<Rightarrow> createRecord st record))"

section \<open>The user's actions\<close>

text \<open>
  The page starts with an empty store and an empty form. Each handler runs to its end
  before the next one starts: the page has one user and one tab.
\<close>

datatype action =
    SetInputs string string string string string
  | Submit bool
  | EditClick int
  | ResetClick
  | DeleteClick int bool

definition init_app :: app where
  "init_app =
     \<lparr>db = initDB,
      form = \<lparr>recordId = None, originalId = None, studentId_value = [],
               fullname_value = [], email_value = [], course_value = [],
               yearLevel_value = []\<rparr>\<rparr>"

fun step :: "app \<Rightarrow> action \<Rightarrow> app" where
  "step st (SetInputs a b c d e) =
     st\<lparr>form := (form st)\<lparr>studentId_value := a, fullname_value := b, email_value := c,
                           course_value := d, yearLevel_value := e\<rparr>\<rparr>"
| "step st (Submit fails) = fst (form_onsubmit fails st)"
| "step st (EditClick k) = fst (prepareUpdateForm st k)"
| "step st ResetClick = fst (resetForm st)"
| "step st (DeleteClick k confirmed) = fst (confirmDelete st k confirmed)"

definition run :: "action list \<Rightarrow> app" where
  "run acts = foldl step init_app acts"

section \<open>Properties of stores, records and traces\<close>

text \<open>
  What IndexedDB keeps true of the object store: one record per key, in key order, one
  record per \<^verbatim>\<open>studentId\<close> (the unique index), and every key below the key
  generator's current number, unless that number has passed \<open>2^53\<close> and the generator
  issues no key any more.
\<close>

definition store_inv :: "store \<Rightarrow> bool" where
  "store_inv s =
     (sorted (map id_key (records s)) \<and> distinct (map id_key (records s))
      \<and> distinct (map studentId (records s))
      \<and> (list_all (\<lambda>r. id_key r < keygen s) (records s) \<or> maxGeneratedKey < keygen s))"

definition nonempty5 :: "'a fields_scheme \<Rightarrow> bool" where
  "nonempty5 r =
     (studentId r \<noteq> [] \<and> fullname r \<noteq> [] \<and> email r \<noteq> [] \<and> course r \<noteq> []
      \<and> yearLevel r \<noteq> [])"

text \<open>What holds of the page after every sequence of actions.\<close>

definition app_inv :: "app \<Rightarrow> bool" where
  "app_inv st = (store_inv (db st) \<and> list_all nonempty5 (records (db st)))"

text \<open>The records a rendered table shows, in the order of its rows.\<close>

fun shownRecords :: "row list \<Rightarrow> student list" where
  "shownRecords [] = []"
| "shownRecords (RecordRow r # rows) = r # shownRecords rows"
| "shownRecords (_ # rows) = shownRecords rows"

text \<open>The persistence calls of a trace, and its error notifications.\<close>

fun isPersist :: "event \<Rightarrow> bool" where
  "isPersist (StoreAdd f) = True"
| "isPersist (StorePut r) = True"
| "isPersist (StoreDelete k) = True"
| "isPersist _ = False"

fun isErrorMessage :: "event \<Rightarrow> bool" where
  "isErrorMessage (ShowMessage m MsgError) = True"
| "isErrorMessage _ = False"

text \<open>Some record other than \<open>r\<close> holds the \<^verbatim>\<open>studentId\<close> of \<open>r\<close>.\<close>

definition heldByOther :: "store \<Rightarrow> student \<Rightarrow> bool" where
  "heldByOther s r =
     list_ex (\<lambda>x. id_key x \<noteq> id_key r \<and> studentId x = studentId r) (records s)"

fun isIndexGet :: "event \<Rightarrow> bool" where
  "isIndexGet (IndexGet k) = True"
| "isIndexGet _ = False"

text \<open>
  A submission fails validation when a field of the record is empty, or the email does
  not match, or the uniqueness check runs and answers false.
\<close>

definition validationFails :: "bool \<Rightarrow> app \<Rightarrow> bool" where
  "validationFails fails st =
     (let record = formRecord (form st)
      in \<not> nonempty5 record \<or> \<not> emailRegex_test (email record)
         \<or> (needsUniqueCheck (form st) (studentId record)
             \<and> \<not> isStudentIdUnique fails (db st) (studentId record) (recordId (form st))))"

text \<open>
  The filter as the specification words it: the lowercased text is a substring of the
  lowercased \<^verbatim>\<open>fullname\<close>, \<^verbatim>\<open>studentId\<close> or \<^verbatim>\<open>course\<close>.
\<close>

definition spec_matches :: "string \<Rightarrow> student \<Rightarrow> bool" where
  "spec_matches text r =
     (sublist (toLowerCase text) (toLowerCase (fullname r))
      \<or> sublist (toLowerCase text) (toLowerCase (studentId r))
      \<or> sublist (toLowerCase text) (toLowerCase (course r)))"

section \<open>Example data\<close>

definition ann :: student where
  "ann =
     \<lparr>studentId = ''S1'', fullname = ''Ann Lee'', email = ''a@b.com'', course = ''BSIT'',
      yearLevel = ''1'', id_key = 1\<rparr>"

definition bob :: student where
  "bob =
     \<lparr>studentId = ''S2'', fullname = ''Bob Cruz'', email = ''bob@c.org'', course = ''BSCS'',
      yearLevel = ''2'', id_key = 2\<rparr>"

definition store2 :: store where
  "store2 = \<lparr>records = [ann, bob], keygen = 3\<rparr>"

definition new_form :: "string \<Rightarrow> string \<Rightarrow> string \<Rightarrow> string \<Rightarrow> string \<Rightarrow> form_state" where
  "new_form a b c d e =
     \<lparr>recordId = None, originalId = None, studentId_value = a, fullname_value = b,
      email_value = c, course_value = d, yearLevel_value = e\<rparr>"

definition st_blank_name :: app where
  "st_blank_name = \<lparr>db = store2, form = new_form '' S3 '' ''   '' ''c@d.io'' ''BSIT'' ''1''\<rparr>"

definition st_bad_email :: app where
  "st_bad_email = \<lparr>db = store2, form = new_form ''S3'' ''Cy Diaz'' ''c@d'' ''BSIT'' ''1''\<rparr>"

definition st_duplicate :: app where
  "st_duplicate = \<lparr>db = store2, form = new_form ''S1'' ''Cy Diaz'' ''c@d.io'' ''BSIT'' ''1''\<rparr>"

definition st_fresh :: app where
  "st_fresh = \<lparr>db = store2, form = new_form '' S3 '' ''Cy Diaz '' ''c@d.io'' ''BSIT'' ''1''\<rparr>"

definition st_idle :: app where
  "st_idle = \<lparr>db = store2, form = new_form [] [] [] [] []\<rparr>"

definition bob_as_S1 :: student where
  "bob_as_S1 = bob\<lparr>studentId := ''S1''\<rparr>"

definition ann_renamed :: student where
  "ann_renamed = ann\<lparr>fullname := ''Ann B. Lee''\<rparr>"

definition cy :: student where
  "cy =
     \<lparr>studentId = ''S3'', fullname = ''Cy Diaz'', email = ''c@d.io'', course = ''BSIT'',
      yearLevel = ''1'', id_key = 7\<rparr>"

text \<open>Record 1 opened for editing, and only its name retyped.\<close>

definition st_editing :: app where
  "st_editing =
     step (fst (prepareUpdateForm st_idle 1))
       (SetInputs ''S1'' ''Ann B. Lee'' ''a@b.com'' ''BSIT'' ''1'')"

definition ann_lower :: fields where
  "ann_lower =
     \<lparr>studentId = ''s1'', fullname = ''Ann Lim'', email = ''al@b.com'', course = ''BSCS'',
      yearLevel = ''3''\<rparr>"

text \<open>The first scenario of the specification: one record created on the empty page.\<close>

definition first_create :: "action list" where
  "first_create = [SetInputs ''S1 '' '' Ann Lee'' ''a@b.com'' ''BSIT'' ''1'', Submit False]"

text \<open>A new record whose course select carries white space around its value.\<close>

definition st_padded_select :: app where
  "st_padded_select =
     \<lparr>db = store2, form = new_form ''S3'' ''Cy Diaz'' ''c@d.io'' '' BSIT '' ''1''\<rparr>"

text \<open>A new record whose course select holds white space alone.\<close>

definition st_blank_course :: app where
  "st_blank_course =
     \<lparr>db = store2, form = new_form ''S3'' ''Cy Diaz'' ''c@d.io'' '' '' ''1''\<rparr>"

text \<open>The same two records in a store whose key generator has passed its last key.\<close>

definition st_exhausted :: app where
  "st_exhausted =
     \<lparr>db = \<lparr>records = [ann, bob], keygen = 9007199254740993\<rparr>,
      form = new_form ''S3'' ''Cy Diaz'' ''c@d.io'' ''BSIT'' ''1''\<rparr>"

section \<open>Lists and the store's invariant\<close>

lemma find_None_conv: "(find P xs = None) = (\<not> list_ex P xs)"
  by (induction xs) auto

lemma find_unique:
  "distinct (map f xs) \<Longrightarrow> r \<in> set xs \<Longrightarrow> find (\<lambda>x. f x = f r) xs = Some r"
  by (induction xs) (auto simp: rev_image_eqI)

lemma find_Some_mem: "find P xs = Some r \<Longrightarrow> r \<in> set xs \<and> P r"
  by (induction xs) (auto split: if_splits)

lemma insort_key_last:
  "\<forall>y \<in> set xs. f y < f x \<Longrightarrow> insort_key f x xs = xs @ [x]"
  by (induction xs) auto

lemma distinct_map_insort_key:
  "distinct (map g (insort_key f x xs)) = (g x \<notin> g ` set xs \<and> distinct (map g xs))"
  by (induction xs) (auto simp: set_insort_key)

lemma distinct_map_eq:
  "distinct (map f xs) \<Longrightarrow> x \<in> set xs \<Longrightarrow> y \<in> set xs \<Longrightarrow> f x = f y \<Longrightarrow> x = y"
  by (auto simp: distinct_map dest: inj_onD)

lemma store_inv_initDB: "store_inv initDB"
  by (simp add: store_inv_def initDB_def)

lemma store_inv_below:
  assumes "store_inv s" and "keygen s \<le> maxGeneratedKey"
  shows "\<forall>r \<in> set (records s). id_key r < keygen s"
  using assms by (auto simp: store_inv_def list_all_iff)

lemma objectStore_add_Inr:
  assumes "objectStore_add s f = Inr s'"
  shows "keygen s \<le> maxGeneratedKey"
    and "\<forall>r \<in> set (records s). studentId r \<noteq> studentId f"
    and "s' = \<lparr>records = insort_key id_key (with_id f (keygen s)) (records s),
               keygen = keygen s + 1\<rparr>"
  using assms by (auto simp: objectStore_add_def Let_def list_ex_iff split: if_splits)

lemma store_inv_add:
  assumes "store_inv s" and "objectStore_add s f = Inr s'"
  shows "store_inv s'"
proof -
  let ?n = "with_id f (keygen s)"
  note add = objectStore_add_Inr [OF assms(2)]
  note below = store_inv_below [OF assms(1) add(1)]
  have k: "id_key ?n = keygen s" and sid: "studentId ?n = studentId f"
    by (simp_all add: with_id_def)
  have "id_key ?n \<notin> id_key ` set (records s)" using below k by auto
  moreover have "studentId ?n \<notin> studentId ` set (records s)" using add(2) sid by auto
  moreover have "\<forall>r \<in> set (insort_key id_key ?n (records s)). id_key r < keygen s + 1"
    using below k by (auto simp: set_insort_key)
  ultimately show ?thesis using assms(1)
    by (simp add: add(3) store_inv_def sorted_insort_key distinct_map_insort_key list_all_iff)
qed

lemma objectStore_put_Inr:
  assumes "objectStore_put s r = Inr s'"
  shows "\<forall>x \<in> set (filter (\<lambda>x. id_key x \<noteq> id_key r) (records s)). studentId x \<noteq> studentId r"
    and "s' = \<lparr>records = insort_key id_key r (filter (\<lambda>x. id_key x \<noteq> id_key r) (records s)),
               keygen = max (keygen s) (min (id_key r) maxGeneratedKey + 1)\<rparr>"
  using assms by (auto simp: objectStore_put_def Let_def list_ex_iff split: if_splits)

lemma store_inv_put:
  assumes "store_inv s" and "objectStore_put s r = Inr s'"
  shows "store_inv s'"
proof -
  let ?o = "filter (\<lambda>x. id_key x \<noteq> id_key r) (records s)"
  let ?g = "max (keygen s) (min (id_key r) maxGeneratedKey + 1)"
  note put = objectStore_put_Inr [OF assms(2)]
  have "id_key r \<notin> id_key ` set ?o" by auto
  moreover have "studentId r \<notin> studentId ` set ?o" using put(1) by force
  moreover have "sorted (map id_key ?o)" "distinct (map id_key ?o)"
    "distinct (map studentId ?o)"
    using assms(1) by (simp_all add: store_inv_def sorted_filter distinct_map_filter)
  moreover have "(\<forall>x \<in> set (insort_key id_key r ?o). id_key x < ?g) \<or> maxGeneratedKey < ?g"
  proof (cases "maxGeneratedKey < ?g")
    case True
    then show ?thesis by simp
  next
    case False
    then have g: "keygen s \<le> maxGeneratedKey" and r: "id_key r < ?g"
      by (auto simp: min_def max_def split: if_splits)
    from store_inv_below [OF assms(1) g] have "\<forall>x \<in> set ?o. id_key x < ?g"
      by auto
    with r show ?thesis by (simp add: set_insort_key del: set_filter)
  qed
  ultimately show ?thesis
    by (simp add: put(2) store_inv_def sorted_insort_key distinct_map_insort_key list_all_iff
        del: set_filter)
qed

lemma store_inv_delete:
  "store_inv s \<Longrightarrow> objectStore_delete s k = Inr s' \<Longrightarrow> store_inv s'"
  by (auto simp: store_inv_def objectStore_delete_def list_all_iff sorted_filter
      distinct_map_filter)

lemma store_inv_store2: "store_inv store2"
  by (simp add: store_inv_def store2_def ann_def bob_def)

lemma keygen_store2: "keygen store2 \<le> maxGeneratedKey"
  by (simp add: store2_def maxGeneratedKey_def)

section \<open>The uniqueness validator\<close>

lemma isStudentIdUnique_self:
  assumes "store_inv s" and "R \<in> set (records s)"
  shows "isStudentIdUnique False s (studentId R) (Some (id_key R))"
proof -
  from assms(1) have "distinct (map studentId (records s))"
    by (simp add: store_inv_def)
  from find_unique [OF this assms(2)] show ?thesis
    by (simp add: isStudentIdUnique_def index_get_def)
qed

lemma isStudentIdUnique_absent:
  assumes "\<forall>r \<in> set (records s). studentId r \<noteq> S"
  shows "isStudentIdUnique False s S excludeId"
proof -
  from assms have "\<not> list_ex (\<lambda>r. studentId r = S) (records s)"
    by (simp add: list_ex_iff)
  then have "find (\<lambda>r. studentId r = S) (records s) = None"
    by (simp add: find_None_conv)
  then show ?thesis
    by (simp add: isStudentIdUnique_def index_get_def)
qed

lemma isStudentIdUnique_iff:
  assumes "store_inv s"
  shows "isStudentIdUnique False s S excludeId
         = (\<not> (\<exists>r \<in> set (records s). studentId r = S \<and> Some (id_key r) \<noteq> excludeId))"
proof (cases "find (\<lambda>r. studentId r = S) (records s)")
  case None
  then have "\<not> list_ex (\<lambda>r. studentId r = S) (records s)"
    by (simp add: find_None_conv)
  then have "\<forall>r \<in> set (records s). studentId r \<noteq> S"
    by (simp add: list_ex_iff)
  with None show ?thesis
    by (auto simp: isStudentIdUnique_def index_get_def)
next
  case (Some e)
  from assms have d: "distinct (map studentId (records s))"
    by (simp add: store_inv_def)
  from Some have e: "e \<in> set (records s)" "studentId e = S"
    using find_Some_mem [of "\<lambda>r. studentId r = S" "records s" e] by simp_all
  have only: "r = e" if "r \<in> set (records s)" "studentId r = S" for r
    using distinct_map_eq [OF d that(1) e(1)] that(2) e(2) by simp
  from Some have "isStudentIdUnique False s S excludeId = (Some (id_key e) = excludeId)"
    by (simp add: isStudentIdUnique_def index_get_def)
  also have "\<dots> = (\<not> (\<exists>r \<in> set (records s). studentId r = S \<and> Some (id_key r) \<noteq> excludeId))"
    using e only by blast
  finally show ?thesis .
qed

text \<open>
  C1. When the lookup in the index completes, \<open>isStudentIdUnique\<close> accepts the
  \<^verbatim>\<open>studentId\<close> of every stored record for that record's own key, and for every
  \<^verbatim>\<open>studentId\<close> \<open>S\<close> and every \<open>excludeId\<close> (a key or \<^verbatim>\<open>null\<close>) it answers false
  exactly when some stored record has \<^verbatim>\<open>studentId\<close> \<open>S\<close> and a key other than
  \<open>excludeId\<close>.
\<close>

theorem isStudentIdUnique_decides:
  assumes "store_inv s"
  shows "(\<forall>R \<in> set (records s). isStudentIdUnique False s (studentId R) (Some (id_key R)))
    \<and> (isStudentIdUnique False s S excludeId
         = (\<not> (\<exists>r \<in> set (records s). studentId r = S \<and> Some (id_key r) \<noteq> excludeId)))"
  using isStudentIdUnique_self [OF assms] isStudentIdUnique_iff [OF assms] by blast

theorem isStudentIdUnique_decides_witness:
  "store_inv store2
   \<and> ann \<in> set (records store2)
   \<and> isStudentIdUnique False store2 (studentId ann) (Some (id_key ann))
   \<and> bob \<in> set (records store2)
   \<and> isStudentIdUnique False store2 (studentId bob) (Some (id_key bob))
   \<and> isStudentIdUnique False store2 ''S1'' (Some 2) = False
   \<and> (\<exists>r \<in> set (records store2). studentId r = ''S1'' \<and> Some (id_key r) \<noteq> Some 2)"
  using isStudentIdUnique_decides [OF store_inv_store2, of "''S1''" "Some 2"]
    store_inv_store2
  by (simp add: store2_def ann_def bob_def)

section \<open>The filter\<close>

lemma includes_str_sublist: "includes_str s sub = sublist sub s"
  by (induction s) (auto simp: sublist_Cons_right)

lemma matchesFilter_spec: "matchesFilter (toLowerCase text) r = spec_matches text r"
  by (auto simp: matchesFilter_def spec_matches_def includes_str_sublist)

lemma shownRecords_cursorRows:
  "shownRecords (cursorRows filter_text xs) = filter (matchesFilter filter_text) xs"
  by (induction xs) auto

lemma cursorRows_empty_filter: "cursorRows [] xs = map RecordRow xs"
  by (induction xs) (auto simp: matchesFilter_def)

lemma shownRecords_placeholder:
  "shownRecords (if rows = [] \<and> c then [NoMatchRow t] else if rows = [] then [NoRecordsRow]
                 else rows) = shownRecords rows"
  by simp

lemma displayRecords_Str:
  "\<exists>rows. displayRecords s (Str text) = Rendered rows
     \<and> shownRecords rows = filter (spec_matches text) (openCursor s)"
proof -
  let ?rows = "cursorRows (toLowerCase text) (openCursor s)"
  let ?shown = "if ?rows = [] \<and> toLowerCase text \<noteq> [] then [NoMatchRow text]
                else if ?rows = [] then [NoRecordsRow] else ?rows"
  have "displayRecords s (Str text) = Rendered ?shown"
    by (simp add: displayRecords_def Let_def)
  moreover have "shownRecords ?shown = shownRecords ?rows"
    by (rule shownRecords_placeholder)
  moreover have "shownRecords ?rows = filter (spec_matches text) (openCursor s)"
    by (simp add: shownRecords_cursorRows matchesFilter_spec [abs_def])
  ultimately show ?thesis by simp
qed

text \<open>
  C3. \<open>displayRecords\<close> with the empty text shows every stored record, and with any text
  it shows exactly the records for which the lowercased text is a substring of the
  lowercased \<^verbatim>\<open>fullname\<close>, of the lowercased \<^verbatim>\<open>studentId\<close> or of the lowercased
  \<^verbatim>\<open>course\<close>; both times in the order in which the cursor yields the records.
\<close>

theorem displayRecords_filter:
  "(\<exists>rows. displayRecords s (Str []) = Rendered rows \<and> shownRecords rows = openCursor s)
   \<and> (\<exists>rows. displayRecords s (Str text) = Rendered rows
         \<and> shownRecords rows = filter (spec_matches text) (openCursor s))"
proof
  have "filter (spec_matches []) (openCursor s) = openCursor s"
    by (simp add: spec_matches_def toLowerCase_def)
  with displayRecords_Str [of s "[]"]
  show "\<exists>rows. displayRecords s (Str []) = Rendered rows \<and> shownRecords rows = openCursor s"
    by simp
  show "\<exists>rows. displayRecords s (Str text) = Rendered rows
         \<and> shownRecords rows = filter (spec_matches text) (openCursor s)"
    by (rule displayRecords_Str)
qed

theorem displayRecords_filter_witness:
  "displayRecords store2 (Str ''bsit'') = Rendered [RecordRow ann]
   \<and> filter (spec_matches ''bsit'') (openCursor store2) = [ann]
   \<and> displayRecords store2 (Str []) = Rendered [RecordRow ann, RecordRow bob]
   \<and> openCursor store2 = [ann, bob]"
proof -
  have a: "displayRecords store2 (Str ''bsit'') = Rendered [RecordRow ann]"
    by code_simp
  have b: "displayRecords store2 (Str []) = Rendered [RecordRow ann, RecordRow bob]"
    by code_simp
  from displayRecords_filter [of store2 "''bsit''"] a b show ?thesis
    by auto
qed

section \<open>Submitting the form\<close>

lemma firstEmpty_None_iff: "(firstEmpty (entries r) = None) = nonempty5 r"
  by (simp add: entries_def nonempty5_def)

lemma firstEmpty_Some_mem: "firstEmpty xs = Some key \<Longrightarrow> (key, []) \<in> set xs"
  by (induction xs) (auto split: if_splits)

text \<open>
  Only the three text inputs are trimmed (lines 71-73); the two selects are read as they
  are (lines 74-75), so a select value of white space alone counts as present.
\<close>

lemma formRecord_selects:
  "course (formRecord f) = course_value f \<and> yearLevel (formRecord f) = yearLevel_value f"
  by (simp add: formRecord_def)

lemma formRecord_blank_select:
  "nonempty5 (formRecord (new_form ''S3'' ''Cy Diaz'' ''c@d.io'' '' '' ''1''))"
  by code_simp

lemma form_onsubmit_empty_field:
  assumes "firstEmpty (entries (formRecord (form st))) = Some key"
  shows "form_onsubmit fails st
         = (st, [ShowMessage (''Please fill out the '' @ key @ '' field.'') MsgError])"
  using assms by (simp add: form_onsubmit_def Let_def showMessage_def)

lemma form_onsubmit_bad_email:
  assumes "nonempty5 (formRecord (form st))"
    and "\<not> emailRegex_test (email (formRecord (form st)))"
  shows "form_onsubmit fails st
         = (st, [ShowMessage ''Please enter a valid email address.'' MsgError])"
proof -
  from assms(1) have "firstEmpty (entries (formRecord (form st))) = None"
    by (simp add: firstEmpty_None_iff)
  with assms(2) show ?thesis
    by (simp add: form_onsubmit_def Let_def showMessage_def)
qed

lemma form_onsubmit_not_unique:
  assumes "nonempty5 (formRecord (form st))"
    and "emailRegex_test (email (formRecord (form st)))"
    and "needsUniqueCheck (form st) (studentId (formRecord (form st)))"
    and "\<not> isStudentIdUnique fails (db st) (studentId (formRecord (form st)))
            (recordId (form st))"
  shows "form_onsubmit fails st
         = (st, [IndexGet (studentId (formRecord (form st))),
                 ShowMessage
                   (''Student ID '' @ studentId (formRecord (form st)) @ '' already exists.'')
                   MsgError])"
proof -
  from assms(1) have "firstEmpty (entries (formRecord (form st))) = None"
    by (simp add: firstEmpty_None_iff)
  with assms(2-4) show ?thesis
    by (simp add: form_onsubmit_def Let_def showMessage_def)
qed

text \<open>
  C4. A submission that fails validation leaves the page as it was, makes no call that
  writes to the store, and ends with an error notification. The checks run in order:
  the first empty field of the record is named, whatever the email and the store hold;
  when every field is present a malformed email is reported, whatever the store holds;
  when the email is well-formed too and the uniqueness check runs and answers false, the
  \<^verbatim>\<open>studentId\<close> is reported as existing.
\<close>

theorem validation_failure_no_persistence:
  "(validationFails fails st \<longrightarrow>
      fst (form_onsubmit fails st) = st
      \<and> \<not> list_ex isPersist (snd (form_onsubmit fails st))
      \<and> snd (form_onsubmit fails st) \<noteq> []
      \<and> isErrorMessage (last (snd (form_onsubmit fails st))))
   \<and> (\<not> nonempty5 (formRecord (form st)) \<longrightarrow>
        (\<exists>key. firstEmpty (entries (formRecord (form st))) = Some key
           \<and> (key, []) \<in> set (entries (formRecord (form st)))
           \<and> form_onsubmit fails st
               = (st, [ShowMessage (''Please fill out the '' @ key @ '' field.'') MsgError])))
   \<and> (nonempty5 (formRecord (form st)) \<and> \<not> emailRegex_test (email (formRecord (form st)))
        \<longrightarrow> form_onsubmit fails st
              = (st, [ShowMessage ''Please enter a valid email address.'' MsgError]))
   \<and> (nonempty5 (formRecord (form st)) \<and> emailRegex_test (email (formRecord (form st)))
        \<and> needsUniqueCheck (form st) (studentId (formRecord (form st)))
        \<and> \<not> isStudentIdUnique fails (db st) (studentId (formRecord (form st)))
              (recordId (form st))
        \<longrightarrow> form_onsubmit fails st
              = (st, [IndexGet (studentId (formRecord (form st))),
                      ShowMessage
                        (''Student ID '' @ studentId (formRecord (form st))
                         @ '' already exists.'')
                        MsgError]))"
proof -
  let ?r = "formRecord (form st)"
  have empty: "\<exists>key. firstEmpty (entries ?r) = Some key \<and> (key, []) \<in> set (entries ?r)
      \<and> form_onsubmit fails st
          = (st, [ShowMessage (''Please fill out the '' @ key @ '' field.'') MsgError])"
    if "\<not> nonempty5 ?r"
  proof -
    from that obtain key where key: "firstEmpty (entries ?r) = Some key"
      using firstEmpty_None_iff [of ?r] by (cases "firstEmpty (entries ?r)") auto
    from firstEmpty_Some_mem [OF key] form_onsubmit_empty_field [OF key] key
    show ?thesis by blast
  qed
  have general: "fst (form_onsubmit fails st) = st
      \<and> \<not> list_ex isPersist (snd (form_onsubmit fails st))
      \<and> snd (form_onsubmit fails st) \<noteq> []
      \<and> isErrorMessage (last (snd (form_onsubmit fails st)))"
    if v: "validationFails fails st"
  proof (cases "nonempty5 ?r")
    case False
    from empty [OF False] show ?thesis by auto
  next
    case present: True
    show ?thesis
    proof (cases "emailRegex_test (email ?r)")
      case False
      from form_onsubmit_bad_email [OF present False] show ?thesis by simp
    next
      case True
      with present v have "needsUniqueCheck (form st) (studentId ?r)"
        and "\<not> isStudentIdUnique fails (db st) (studentId ?r) (recordId (form st))"
        by (simp_all add: validationFails_def Let_def)
      from form_onsubmit_not_unique [OF present True this] show ?thesis by simp
    qed
  qed
  from empty general form_onsubmit_bad_email form_onsubmit_not_unique
  show ?thesis by blast
qed

theorem validation_failure_no_persistence_witness:
  "validationFails False st_blank_name
   \<and> form_onsubmit False st_blank_name
       = (st_blank_name, [ShowMessage ''Please fill out the fullname field.'' MsgError])
   \<and> validationFails False st_bad_email
   \<and> form_onsubmit False st_bad_email
       = (st_bad_email, [ShowMessage ''Please enter a valid email address.'' MsgError])
   \<and> validationFails False st_duplicate
   \<and> form_onsubmit False st_duplicate
       = (st_duplicate,
          [IndexGet ''S1'', ShowMessage ''Student ID S1 already exists.'' MsgError])
   \<and> \<not> list_ex isPersist (snd (form_onsubmit False st_duplicate))"
proof -
  have blank: "\<not> nonempty5 (formRecord (form st_blank_name))"
    "firstEmpty (entries (formRecord (form st_blank_name))) = Some ''fullname''"
    by code_simp+
  have bad: "nonempty5 (formRecord (form st_bad_email))"
    "\<not> emailRegex_test (email (formRecord (form st_bad_email)))"
    by code_simp+
  have dup: "nonempty5 (formRecord (form st_duplicate))"
    "emailRegex_test (email (formRecord (form st_duplicate)))"
    "needsUniqueCheck (form st_duplicate) (studentId (formRecord (form st_duplicate)))"
    "\<not> isStudentIdUnique False (db st_duplicate) (studentId (formRecord (form st_duplicate)))
        (recordId (form st_duplicate))"
    "studentId (formRecord (form st_duplicate)) = ''S1''"
    by code_simp+
  have fails: "validationFails False st_blank_name" "validationFails False st_bad_email"
    "validationFails False st_duplicate"
    using blank(1) bad(2) dup(3,4) by (simp_all add: validationFails_def Let_def)
  from validation_failure_no_persistence [of False st_blank_name] blank
  have 1: "form_onsubmit False st_blank_name
       = (st_blank_name, [ShowMessage ''Please fill out the fullname field.'' MsgError])"
    by auto
  from validation_failure_no_persistence [of False st_bad_email] bad
  have 2: "form_onsubmit False st_bad_email
       = (st_bad_email, [ShowMessage ''Please enter a valid email address.'' MsgError])"
    by blast
  from validation_failure_no_persistence [of False st_duplicate] dup(1-4)
  have "form_onsubmit False st_duplicate
       = (st_duplicate,
          [IndexGet (studentId (formRecord (form st_duplicate))),
           ShowMessage
             (''Student ID '' @ studentId (formRecord (form st_duplicate)) @ '' already exists.'')
             MsgError])"
    by blast
  then have 3: "form_onsubmit False st_duplicate
       = (st_duplicate,
          [IndexGet ''S1'', ShowMessage ''Student ID S1 already exists.'' MsgError])"
    by (simp add: dup(5))
  from validation_failure_no_persistence [of False st_duplicate] fails(3)
  have 4: "\<not> list_ex isPersist (snd (form_onsubmit False st_duplicate))"
    by blast
  from fails 1 2 3 4 show ?thesis by blast
qed

text \<open>
  C9. When the lookup in the index fails, \<open>isStudentIdUnique\<close> answers false, and a
  submission whose fields are present, whose email is well-formed and whose uniqueness
  check runs is then rejected with the notification that the \<^verbatim>\<open>studentId\<close> already
  exists: the page and the store stay as they were.
\<close>

theorem lookup_failure_reported_as_duplicate:
  "isStudentIdUnique True s sid excludeId = False
   \<and> (nonempty5 (formRecord (form st)) \<and> emailRegex_test (email (formRecord (form st)))
        \<and> needsUniqueCheck (form st) (studentId (formRecord (form st)))
        \<longrightarrow> form_onsubmit True st
              = (st, [IndexGet (studentId (formRecord (form st))),
                      ShowMessage
                        (''Student ID '' @ studentId (formRecord (form st))
                         @ '' already exists.'')
                        MsgError]))"
proof -
  have no: "\<not> isStudentIdUnique True s' sid' ex" for s' sid' ex
    by (simp add: isStudentIdUnique_def index_get_def)
  from no form_onsubmit_not_unique [OF _ _ _ no, of st] show ?thesis by blast
qed

theorem lookup_failure_reported_as_duplicate_witness:
  "nonempty5 (formRecord (form st_fresh))
   \<and> emailRegex_test (email (formRecord (form st_fresh)))
   \<and> needsUniqueCheck (form st_fresh) (studentId (formRecord (form st_fresh)))
   \<and> isStudentIdUnique False (db st_fresh) ''S3'' None
   \<and> isStudentIdUnique True (db st_fresh) ''S3'' None = False
   \<and> form_onsubmit True st_fresh
       = (st_fresh, [IndexGet ''S3'', ShowMessage ''Student ID S3 already exists.'' MsgError])"
proof -
  have h: "nonempty5 (formRecord (form st_fresh))"
    "emailRegex_test (email (formRecord (form st_fresh)))"
    "needsUniqueCheck (form st_fresh) (studentId (formRecord (form st_fresh)))"
    "studentId (formRecord (form st_fresh)) = ''S3''"
    "isStudentIdUnique False (db st_fresh) ''S3'' None"
    by code_simp+
  from lookup_failure_reported_as_duplicate [of "db st_fresh" "''S3''" None st_fresh] h(1-3)
  have "isStudentIdUnique True (db st_fresh) ''S3'' None = False"
    and "form_onsubmit True st_fresh
         = (st_fresh,
            [IndexGet (studentId (formRecord (form st_fresh))),
             ShowMessage
               (''Student ID '' @ studentId (formRecord (form st_fresh)) @ '' already exists.'')
               MsgError])"
    by blast+
  with h show ?thesis by simp
qed

section \<open>Deleting\<close>

lemma deleteRecord_eq:
  "deleteRecord st k
   = (st\<lparr>db := (db st)\<lparr>records := filter (\<lambda>x. id_key x \<noteq> k) (records (db st))\<rparr>\<rparr>,
      [StoreDelete k, ShowMessage ''Record deleted successfully!'' MsgSuccess, Display Threw])"
  by (simp add: deleteRecord_def objectStore_delete_def showMessage_def displayRecords_def)

lemma find_filter_None: "find (\<lambda>r. f r = k) (filter (\<lambda>x. f x \<noteq> k) xs) = None"
  by (induction xs) auto

text \<open>
  The store's side of a delete repeated with one key: both requests succeed, the success
  notification is shown both times, the second call leaves the store as the first one
  left it, and no record with that key remains, whether or not there was one.
\<close>

lemma deleteRecord_store_idempotent:
  "objectStore_delete (db st) k = Inr (db (fst (deleteRecord st k)))
   \<and> objectStore_delete (db (fst (deleteRecord st k))) k
       = Inr (db (fst (deleteRecord (fst (deleteRecord st k)) k)))
   \<and> ShowMessage ''Record deleted successfully!'' MsgSuccess \<in> set (snd (deleteRecord st k))
   \<and> ShowMessage ''Record deleted successfully!'' MsgSuccess
       \<in> set (snd (deleteRecord (fst (deleteRecord st k)) k))
   \<and> db (fst (deleteRecord (fst (deleteRecord st k)) k)) = db (fst (deleteRecord st k))
   \<and> objectStore_get (db (fst (deleteRecord (fst (deleteRecord st k)) k))) k = None"
  by (simp add: deleteRecord_eq objectStore_delete_def objectStore_get_def find_filter_None)

text \<open>
  The refresh of \<open>createRecord\<close> and \<open>updateRecord\<close> calls \<open>displayRecords\<close> with no
  argument, and that call always renders.
\<close>

lemma displayRecords_Undefined_renders: "displayRecords s Undefined \<noteq> Threw"
  by (simp add: displayRecords_def Let_def)

text \<open>
  C8. \<open>deleteRecord\<close> called twice with the key of a stored record. The store's delete
  succeeds both times and the record is gone, but neither call ends without an error:
  the completion handler is \<open>displayRecords\<close> itself (line 317), it receives the event
  object as its filter text, empties the table and throws. Called with no argument, as
  the two sibling paths call it, it would have rendered the remaining record.
\<close>

theorem deleteRecord_refresh_throws:
  "objectStore_get (db st_idle) 1 = Some ann
   \<and> snd (deleteRecord st_idle 1)
       = [StoreDelete 1, ShowMessage ''Record deleted successfully!'' MsgSuccess,
          Display Threw]
   \<and> db (fst (deleteRecord st_idle 1)) = \<lparr>records = [bob], keygen = 3\<rparr>
   \<and> snd (deleteRecord (fst (deleteRecord st_idle 1)) 1)
       = [StoreDelete 1, ShowMessage ''Record deleted successfully!'' MsgSuccess,
          Display Threw]
   \<and> db (fst (deleteRecord (fst (deleteRecord st_idle 1)) 1))
       = \<lparr>records = [bob], keygen = 3\<rparr>
   \<and> displayRecords \<lparr>records = [bob], keygen = 3\<rparr> EventObject = Threw
   \<and> displayRecords \<lparr>records = [bob], keygen = 3\<rparr> Undefined = Rendered [RecordRow bob]"
proof -
  have "objectStore_get (db st_idle) 1 = Some ann"
    and "db (fst (deleteRecord st_idle 1)) = \<lparr>records = [bob], keygen = 3\<rparr>"
    and "db (fst (deleteRecord (fst (deleteRecord st_idle 1)) 1))
         = \<lparr>records = [bob], keygen = 3\<rparr>"
    and "displayRecords \<lparr>records = [bob], keygen = 3\<rparr> EventObject = Threw"
    and "displayRecords \<lparr>records = [bob], keygen = 3\<rparr> Undefined = Rendered [RecordRow bob]"
    by code_simp+
  then show ?thesis
    by (simp add: deleteRecord_eq)
qed

section \<open>Creating and updating\<close>

lemma objectStore_add_fresh:
  assumes "store_inv s" and "\<forall>r \<in> set (records s). studentId r \<noteq> studentId f"
    and "keygen s \<le> maxGeneratedKey"
  shows "objectStore_add s f
         = Inr \<lparr>records = records s @ [with_id f (keygen s)], keygen = keygen s + 1\<rparr>"
proof -
  note below = store_inv_below [OF assms(1,3)]
  then have "\<forall>r \<in> set (records s). id_key r < id_key (with_id f (keygen s))"
    by (simp add: with_id_def)
  then have "insort_key id_key (with_id f (keygen s)) (records s)
             = records s @ [with_id f (keygen s)]"
    by (rule insort_key_last)
  moreover from below have "\<not> list_ex (\<lambda>r. id_key r = keygen s) (records s)"
    by (auto simp: list_ex_iff)
  moreover from assms(2) have "\<not> list_ex (\<lambda>r. studentId r = studentId f) (records s)"
    by (simp add: list_ex_iff)
  ultimately show ?thesis
    using assms(3) by (simp add: objectStore_add_def Let_def)
qed

lemma objectStore_add_exhausted:
  "maxGeneratedKey < keygen s \<Longrightarrow> objectStore_add s f = Inl ConstraintError"
  by (simp add: objectStore_add_def Let_def)

lemma objectStore_add_held:
  "r \<in> set (records s) \<Longrightarrow> studentId r = studentId f
   \<Longrightarrow> objectStore_add s f = Inl ConstraintError"
  by (auto simp: objectStore_add_def Let_def list_ex_iff)

lemma createRecord_success:
  assumes "objectStore_add (db st) f = Inr s'"
  shows "db (fst (createRecord st f)) = s'"
    and "snd (createRecord st f)
         = [StoreAdd f, ShowMessage ''Student record added successfully!'' MsgSuccess,
            ShowMessage ''Form reset.'' MsgSuccess, Display (displayRecords s' Undefined)]"
  using assms by (simp_all add: createRecord_def resetForm_def showMessage_def)

lemma form_onsubmit_create:
  assumes "recordId (form st) = None"
    and "nonempty5 (formRecord (form st))"
    and "emailRegex_test (email (formRecord (form st)))"
    and "isStudentIdUnique fails (db st) (studentId (formRecord (form st))) None"
  shows "form_onsubmit fails st
         = (fst (createRecord st (formRecord (form st))),
            IndexGet (studentId (formRecord (form st)))
            # snd (createRecord st (formRecord (form st))))"
proof -
  from assms(2) have "firstEmpty (entries (formRecord (form st))) = None"
    by (simp add: firstEmpty_None_iff)
  with assms(1,3,4) show ?thesis
    by (simp add: form_onsubmit_def Let_def needsUniqueCheck_def split: prod.split)
qed

text \<open>
  C2, as the code has it. Only the three text inputs are trimmed: a submission that
  meets every condition of the claim, with white space around the value of the course
  select, stores that value as it is and not trimmed. And once the key generator has
  passed \<open>2^53\<close> the add is refused: the same valid submission then creates no record.
\<close>

theorem submit_creates_counterexample:
  "store_inv (db st_padded_select)
   \<and> recordId (form st_padded_select) = None
   \<and> nonempty5 (formRecord (form st_padded_select))
   \<and> emailRegex_test (email (formRecord (form st_padded_select)))
   \<and> \<not> list_ex (\<lambda>r. studentId r = trim (studentId_value (form st_padded_select)))
          (records (db st_padded_select))
   \<and> records (db (fst (form_onsubmit False st_padded_select)))
       = [ann, bob,
          \<lparr>studentId = ''S3'', fullname = ''Cy Diaz'', email = ''c@d.io'',
           course = '' BSIT '', yearLevel = ''1'', id_key = 3\<rparr>]
   \<and> trim (course_value (form st_padded_select)) = ''BSIT''
   \<and> store_inv (db st_exhausted)
   \<and> nonempty5 (formRecord (form st_exhausted))
   \<and> emailRegex_test (email (formRecord (form st_exhausted)))
   \<and> \<not> list_ex (\<lambda>r. studentId r = trim (studentId_value (form st_exhausted)))
          (records (db st_exhausted))
   \<and> form_onsubmit False st_exhausted
       = (st_exhausted,
          [IndexGet ''S3'', StoreAdd (formRecord (form st_exhausted)),
           ShowMessage ''Failed to add record. Student ID might already exist.'' MsgError])"
proof -
  have "store_inv (db st_padded_select)"
    "recordId (form st_padded_select) = None"
    "nonempty5 (formRecord (form st_padded_select))"
    "emailRegex_test (email (formRecord (form st_padded_select)))"
    "\<not> list_ex (\<lambda>r. studentId r = trim (studentId_value (form st_padded_select)))
          (records (db st_padded_select))"
    "records (db (fst (form_onsubmit False st_padded_select)))
       = [ann, bob,
          \<lparr>studentId = ''S3'', fullname = ''Cy Diaz'', email = ''c@d.io'',
           course = '' BSIT '', yearLevel = ''1'', id_key = 3\<rparr>]"
    "trim (course_value (form st_padded_select)) = ''BSIT''"
    by code_simp+
  moreover have "store_inv (db st_exhausted)"
    "nonempty5 (formRecord (form st_exhausted))"
    "emailRegex_test (email (formRecord (form st_exhausted)))"
    "\<not> list_ex (\<lambda>r. studentId r = trim (studentId_value (form st_exhausted)))
          (records (db st_exhausted))"
    "form_onsubmit False st_exhausted
       = (st_exhausted,
          [IndexGet ''S3'', StoreAdd (formRecord (form st_exhausted)),
           ShowMessage ''Failed to add record. Student ID might already exist.'' MsgError])"
    by code_simp+
  ultimately show ?thesis by blast
qed

text \<open>
  C2, amended. A submission with no editing id, whose record has every field present and
  a well-formed email, whose \<^verbatim>\<open>studentId\<close> no stored record holds, made while the key
  generator can still issue a key: the store gains exactly one record and keeps the
  others as they were. The new record's key is the key generator's number, which no
  stored record has; its \<^verbatim>\<open>studentId\<close>, \<^verbatim>\<open>fullname\<close> and \<^verbatim>\<open>email\<close> are the
  trimmed inputs, its \<^verbatim>\<open>course\<close> and \<^verbatim>\<open>yearLevel\<close> the values of the two selects as
  they are. The only write is that one add.
\<close>

theorem submit_creates_one_record:
  assumes "store_inv (db st)"
    and "recordId (form st) = None"
    and "nonempty5 (formRecord (form st))"
    and "emailRegex_test (email (formRecord (form st)))"
    and "\<forall>r \<in> set (records (db st)). studentId r \<noteq> trim (studentId_value (form st))"
    and "keygen (db st) \<le> maxGeneratedKey"
  shows "records (db (fst (form_onsubmit False st)))
         = records (db st)
           @ [\<lparr>studentId = trim (studentId_value (form st)),
                fullname = trim (fullname_value (form st)),
                email = trim (email_value (form st)),
                course = course_value (form st),
                yearLevel = yearLevel_value (form st),
                id_key = keygen (db st)\<rparr>]
    \<and> keygen (db st) \<notin> id_key ` set (records (db st))
    \<and> filter isPersist (snd (form_onsubmit False st)) = [StoreAdd (formRecord (form st))]
    \<and> ShowMessage ''Student record added successfully!'' MsgSuccess
        \<in> set (snd (form_onsubmit False st))"
proof -
  let ?f = "formRecord (form st)"
  have sid: "studentId ?f = trim (studentId_value (form st))"
    by (simp add: formRecord_def)
  with assms(5) have fresh: "\<forall>r \<in> set (records (db st)). studentId r \<noteq> studentId ?f"
    by simp
  then have uniq: "isStudentIdUnique False (db st) (studentId ?f) None"
    by (rule isStudentIdUnique_absent)
  note add = objectStore_add_fresh [OF assms(1) fresh assms(6)]
  note sub = form_onsubmit_create [OF assms(2-4) uniq]
  have new: "with_id ?f (keygen (db st))
      = \<lparr>studentId = trim (studentId_value (form st)),
         fullname = trim (fullname_value (form st)),
         email = trim (email_value (form st)),
         course = course_value (form st),
         yearLevel = yearLevel_value (form st),
         id_key = keygen (db st)\<rparr>"
    by (simp add: with_id_def formRecord_def)
  have "records (db (fst (form_onsubmit False st)))
        = records (db st) @ [with_id ?f (keygen (db st))]"
    by (simp add: sub createRecord_success(1) [OF add])
  moreover from store_inv_below [OF assms(1,6)]
  have "keygen (db st) \<notin> id_key ` set (records (db st))"
    by auto
  moreover have "filter isPersist (snd (form_onsubmit False st)) = [StoreAdd ?f]"
    by (simp add: sub createRecord_success(2) [OF add])
  moreover have "ShowMessage ''Student record added successfully!'' MsgSuccess
        \<in> set (snd (form_onsubmit False st))"
    by (simp add: sub createRecord_success(2) [OF add])
  ultimately show ?thesis
    by (simp only: new simp_thms)
qed

theorem submit_creates_one_record_witness:
  "store_inv (db st_fresh)
   \<and> recordId (form st_fresh) = None
   \<and> nonempty5 (formRecord (form st_fresh))
   \<and> emailRegex_test (email (formRecord (form st_fresh)))
   \<and> \<not> list_ex (\<lambda>r. studentId r = trim (studentId_value (form st_fresh)))
          (records (db st_fresh))
   \<and> keygen (db st_fresh) \<le> maxGeneratedKey
   \<and> records (db (fst (form_onsubmit False st_fresh)))
       = [ann, bob,
          \<lparr>studentId = ''S3'', fullname = ''Cy Diaz'', email = ''c@d.io'', course = ''BSIT'',
           yearLevel = ''1'', id_key = 3\<rparr>]"
proof -
  have h: "store_inv (db st_fresh)" "recordId (form st_fresh) = None"
    "nonempty5 (formRecord (form st_fresh))"
    "emailRegex_test (email (formRecord (form st_fresh)))"
    "\<not> list_ex (\<lambda>r. studentId r = trim (studentId_value (form st_fresh)))
          (records (db st_fresh))"
    "keygen (db st_fresh) \<le> maxGeneratedKey"
    by code_simp+
  from h(5)
  have h5: "\<forall>r \<in> set (records (db st_fresh)). studentId r \<noteq> trim (studentId_value (form st_fresh))"
    by (simp add: list_ex_iff)
  have v: "records (db st_fresh) = [ann, bob]" "keygen (db st_fresh) = 3"
    "trim (studentId_value (form st_fresh)) = ''S3''"
    "trim (fullname_value (form st_fresh)) = ''Cy Diaz''"
    "trim (email_value (form st_fresh)) = ''c@d.io''"
    "course_value (form st_fresh) = ''BSIT''" "yearLevel_value (form st_fresh) = ''1''"
    by code_simp+
  from submit_creates_one_record [OF h(1-4) h5 h(6)]
  have "records (db (fst (form_onsubmit False st_fresh)))
       = [ann, bob,
          \<lparr>studentId = ''S3'', fullname = ''Cy Diaz'', email = ''c@d.io'', course = ''BSIT'',
           yearLevel = ''1'', id_key = 3\<rparr>]"
    by (simp add: v)
  with h show ?thesis by simp
qed

lemma objectStore_put_cases:
  "objectStore_put s r
   = (if heldByOther s r then Inl ConstraintError
      else Inr \<lparr>records = insort_key id_key r (filter (\<lambda>x. id_key x \<noteq> id_key r) (records s)),
                keygen = max (keygen s) (min (id_key r) maxGeneratedKey + 1)\<rparr>)"
  by (auto simp: objectStore_put_def heldByOther_def Let_def list_ex_iff)

lemma find_insort_key_new:
  "\<forall>x \<in> set xs. f x \<noteq> f r \<Longrightarrow> find (\<lambda>x. f x = f r) (insort_key f r xs) = Some r"
  by (induction xs) auto

lemma objectStore_put_get:
  assumes "\<not> heldByOther s r"
  shows "\<exists>s'. objectStore_put s r = Inr s' \<and> objectStore_get s' (id_key r) = Some r"
proof -
  let ?o = "filter (\<lambda>x. id_key x \<noteq> id_key r) (records s)"
  have "\<forall>x \<in> set ?o. id_key x \<noteq> id_key r" by simp
  then have "find (\<lambda>x. id_key x = id_key r) (insort_key id_key r ?o) = Some r"
    by (rule find_insort_key_new)
  with assms show ?thesis
    by (simp add: objectStore_put_cases objectStore_get_def)
qed

lemma updateRecord_success:
  assumes "objectStore_put (db st) r = Inr s'"
  shows "db (fst (updateRecord st r)) = s'"
    and "snd (updateRecord st r)
         = [StorePut r,
            ShowMessage (''Record for '' @ fullname r @ '' updated successfully!'') MsgSuccess,
            ShowMessage ''Form reset.'' MsgSuccess, Display (displayRecords s' Undefined)]"
  using assms by (simp_all add: updateRecord_def resetForm_def showMessage_def)

lemma updateRecord_failure:
  assumes "objectStore_put (db st) r = Inl e"
  shows "updateRecord st r
         = (st, [StorePut r, ShowMessage ''Failed to update record.'' MsgError])"
  using assms by (simp add: updateRecord_def showMessage_def)

text \<open>
  C7, as the code has it. The unique index on \<^verbatim>\<open>studentId\<close> makes a put fail when a
  record with another key holds the \<^verbatim>\<open>studentId\<close> written: below, the put of key 2
  with the \<^verbatim>\<open>studentId\<close> of key 1 is refused, \<open>updateRecord\<close> reports the failure,
  and the record read back at key 2 is the old one.
\<close>

theorem put_get_counterexample:
  "store_inv (db st_idle)
   \<and> id_key bob_as_S1 = 2
   \<and> objectStore_put (db st_idle) bob_as_S1 = Inl ConstraintError
   \<and> updateRecord st_idle bob_as_S1
       = (st_idle, [StorePut bob_as_S1, ShowMessage ''Failed to update record.'' MsgError])
   \<and> objectStore_get (db (fst (updateRecord st_idle bob_as_S1))) 2 = Some bob
   \<and> bob \<noteq> bob_as_S1"
proof -
  have put: "objectStore_put (db st_idle) bob_as_S1 = Inl ConstraintError"
    by code_simp
  have "store_inv (db st_idle)" "id_key bob_as_S1 = 2"
    "objectStore_get (db st_idle) 2 = Some bob" "bob \<noteq> bob_as_S1"
    by code_simp+
  with put updateRecord_failure [OF put] show ?thesis by simp
qed

text \<open>
  C7, amended. For every record \<open>r\<close> whose \<^verbatim>\<open>studentId\<close> no record with another key
  holds, \<open>updateRecord\<close> writes \<open>r\<close> and the record then read at its key is \<open>r\<close>, whether
  or not the store held a record with that key before. When a record with another key
  holds that \<^verbatim>\<open>studentId\<close>, the put fails with a \<^verbatim>\<open>ConstraintError\<close>, the failure is
  notified, and the page and the store stay as they were.
\<close>

theorem put_get_roundtrip:
  "(\<not> heldByOther (db st) r \<longrightarrow>
      objectStore_put (db st) r = Inr (db (fst (updateRecord st r)))
      \<and> objectStore_get (db (fst (updateRecord st r))) (id_key r) = Some r)
   \<and> (heldByOther (db st) r \<longrightarrow>
        objectStore_put (db st) r = Inl ConstraintError
        \<and> updateRecord st r
            = (st, [StorePut r, ShowMessage ''Failed to update record.'' MsgError]))"
proof (intro conjI impI)
  assume "\<not> heldByOther (db st) r"
  from objectStore_put_get [OF this] obtain s'
    where s': "objectStore_put (db st) r = Inr s'" "objectStore_get s' (id_key r) = Some r"
    by blast
  from s' updateRecord_success(1) [OF s'(1)]
  show "objectStore_put (db st) r = Inr (db (fst (updateRecord st r)))"
    and "objectStore_get (db (fst (updateRecord st r))) (id_key r) = Some r"
    by simp_all
next
  assume "heldByOther (db st) r"
  then show put: "objectStore_put (db st) r = Inl ConstraintError"
    by (simp add: objectStore_put_cases)
  from updateRecord_failure [OF put]
  show "updateRecord st r = (st, [StorePut r, ShowMessage ''Failed to update record.'' MsgError])" .
qed

theorem put_get_roundtrip_witness:
  "\<not> heldByOther (db st_idle) ann_renamed
   \<and> objectStore_get (db st_idle) (id_key ann_renamed) = Some ann
   \<and> objectStore_get (db (fst (updateRecord st_idle ann_renamed))) (id_key ann_renamed)
       = Some ann_renamed
   \<and> \<not> heldByOther (db st_idle) cy
   \<and> objectStore_get (db st_idle) (id_key cy) = None
   \<and> objectStore_get (db (fst (updateRecord st_idle cy))) (id_key cy) = Some cy
   \<and> heldByOther (db st_idle) bob_as_S1
   \<and> fst (updateRecord st_idle bob_as_S1) = st_idle"
proof -
  have h: "\<not> heldByOther (db st_idle) ann_renamed"
    "objectStore_get (db st_idle) (id_key ann_renamed) = Some ann"
    "\<not> heldByOther (db st_idle) cy"
    "objectStore_get (db st_idle) (id_key cy) = None"
    "heldByOther (db st_idle) bob_as_S1"
    by code_simp+
  from put_get_roundtrip [of st_idle ann_renamed] h(1)
  have 1: "objectStore_get (db (fst (updateRecord st_idle ann_renamed))) (id_key ann_renamed)
       = Some ann_renamed"
    by blast
  from put_get_roundtrip [of st_idle cy] h(3)
  have 2: "objectStore_get (db (fst (updateRecord st_idle cy))) (id_key cy) = Some cy"
    by blast
  from put_get_roundtrip [of st_idle bob_as_S1] h(5)
  have 3: "fst (updateRecord st_idle bob_as_S1) = st_idle"
    by simp
  from h 1 2 3 show ?thesis by blast
qed

lemma objectStore_get_mem:
  "objectStore_get s k = Some r \<Longrightarrow> r \<in> set (records s) \<and> id_key r = k"
  using find_Some_mem [of "\<lambda>r. id_key r = k" "records s" r]
  by (simp add: objectStore_get_def)

lemma not_heldByOther_own:
  assumes "store_inv s" and "r0 \<in> set (records s)"
    and "id_key r = id_key r0" and "studentId r = studentId r0"
  shows "\<not> heldByOther s r"
proof
  assume "heldByOther s r"
  then obtain x where x: "x \<in> set (records s)" "id_key x \<noteq> id_key r" "studentId x = studentId r"
    by (auto simp: heldByOther_def list_ex_iff)
  from assms(1) have "distinct (map studentId (records s))"
    by (simp add: store_inv_def)
  from distinct_map_eq [OF this x(1) assms(2)] x(3) assms(4) have "x = r0" by simp
  with x(2) assms(3) show False by simp
qed

lemma form_onsubmit_update_unchecked:
  assumes "recordId (form st) = Some k"
    and "originalId (form st) = Some (studentId (formRecord (form st)))"
    and "nonempty5 (formRecord (form st))"
    and "emailRegex_test (email (formRecord (form st)))"
  shows "form_onsubmit fails st = updateRecord st (with_id (formRecord (form st)) k)"
proof -
  from assms(3) have "firstEmpty (entries (formRecord (form st))) = None"
    by (simp add: firstEmpty_None_iff)
  with assms(1,2,4) show ?thesis
    by (simp add: form_onsubmit_def Let_def needsUniqueCheck_def)
qed

lemma prepareUpdateForm_found:
  assumes "objectStore_get (db st) k = Some r0"
  shows "recordId (form (fst (prepareUpdateForm st k))) = Some k"
    and "originalId (form (fst (prepareUpdateForm st k))) = Some (studentId r0)"
    and "studentId_value (form (fst (prepareUpdateForm st k))) = studentId r0"
    and "db (fst (prepareUpdateForm st k)) = db st"
  using assms objectStore_get_mem [OF assms] by (simp_all add: prepareUpdateForm_def)

text \<open>
  C6. The form edits the stored record with key \<open>k\<close>; the cached original
  \<^verbatim>\<open>studentId\<close> is that record's, and so is the submitted one after trimming; the
  fields are present and the email is well-formed. Then the submission makes no lookup
  in the index, the put succeeds, the record read at \<open>k\<close> afterwards is the submitted
  one with the \<^verbatim>\<open>studentId\<close> it had, and \<open>isStudentIdUnique\<close> would have accepted
  that \<^verbatim>\<open>studentId\<close> for \<open>k\<close> had it been asked.
\<close>

theorem update_unchanged_studentId_skips_check:
  assumes "store_inv (db st)"
    and "recordId (form st) = Some k"
    and "objectStore_get (db st) k = Some r0"
    and "originalId (form st) = Some (studentId r0)"
    and "trim (studentId_value (form st)) = studentId r0"
    and "nonempty5 (formRecord (form st))"
    and "emailRegex_test (email (formRecord (form st)))"
  shows "\<not> list_ex isIndexGet (snd (form_onsubmit fails st))
    \<and> filter isPersist (snd (form_onsubmit fails st))
        = [StorePut (with_id (formRecord (form st)) k)]
    \<and> \<not> list_ex isErrorMessage (snd (form_onsubmit fails st))
    \<and> objectStore_get (db (fst (form_onsubmit fails st))) k
        = Some (with_id (formRecord (form st)) k)
    \<and> studentId (with_id (formRecord (form st)) k) = studentId r0
    \<and> isStudentIdUnique False (db st) (studentId (formRecord (form st))) (Some k)"
proof -
  let ?r = "with_id (formRecord (form st)) k"
  from objectStore_get_mem [OF assms(3)]
  have r0: "r0 \<in> set (records (db st))" "id_key r0 = k" by simp_all
  have sid: "studentId (formRecord (form st)) = studentId r0"
    using assms(5) by (simp add: formRecord_def)
  have r: "id_key ?r = id_key r0" "studentId ?r = studentId r0"
    using r0(2) sid by (simp_all add: with_id_def)
  from not_heldByOther_own [OF assms(1) r0(1) r]
  have free: "\<not> heldByOther (db st) ?r" .
  from objectStore_put_get [OF free] obtain s'
    where s': "objectStore_put (db st) ?r = Inr s'" "objectStore_get s' (id_key ?r) = Some ?r"
    by blast
  have sub: "form_onsubmit fails st = updateRecord st ?r"
    using assms(2,4,6,7) sid by (simp add: form_onsubmit_update_unchecked)
  note upd = updateRecord_success [OF s'(1)]
  have "\<not> list_ex isIndexGet (snd (form_onsubmit fails st))"
    by (simp add: sub upd(2))
  moreover have "filter isPersist (snd (form_onsubmit fails st)) = [StorePut ?r]"
    by (simp add: sub upd(2))
  moreover have "\<not> list_ex isErrorMessage (snd (form_onsubmit fails st))"
    by (simp add: sub upd(2))
  moreover have "objectStore_get (db (fst (form_onsubmit fails st))) k = Some ?r"
    using s'(2) r(1) r0(2) by (simp add: sub upd(1))
  moreover have "isStudentIdUnique False (db st) (studentId (formRecord (form st))) (Some k)"
    using isStudentIdUnique_self [OF assms(1) r0(1)] r0(2) sid by simp
  ultimately show ?thesis using r(2) by blast
qed

theorem update_unchanged_studentId_skips_check_witness:
  "store_inv (db st_editing)
   \<and> recordId (form st_editing) = Some 1
   \<and> objectStore_get (db st_editing) 1 = Some ann
   \<and> originalId (form st_editing) = Some (studentId ann)
   \<and> trim (studentId_value (form st_editing)) = studentId ann
   \<and> nonempty5 (formRecord (form st_editing))
   \<and> emailRegex_test (email (formRecord (form st_editing)))
   \<and> \<not> list_ex isIndexGet (snd (form_onsubmit False st_editing))
   \<and> objectStore_get (db (fst (form_onsubmit False st_editing))) 1 = Some ann_renamed"
proof -
  have h: "store_inv (db st_editing)" "recordId (form st_editing) = Some 1"
    "objectStore_get (db st_editing) 1 = Some ann"
    "originalId (form st_editing) = Some (studentId ann)"
    "trim (studentId_value (form st_editing)) = studentId ann"
    "nonempty5 (formRecord (form st_editing))"
    "emailRegex_test (email (formRecord (form st_editing)))"
    by code_simp+
  have v: "with_id (formRecord (form st_editing)) 1 = ann_renamed"
    by code_simp
  from update_unchanged_studentId_skips_check [OF h, of False]
  have "\<not> list_ex isIndexGet (snd (form_onsubmit False st_editing))"
    and "objectStore_get (db (fst (form_onsubmit False st_editing))) 1
         = Some (with_id (formRecord (form st_editing)) 1)"
    by blast+
  with h v show ?thesis by simp
qed

section \<open>Letter case\<close>

lemma includes_str_refl: "includes_str s s"
  by (simp add: includes_str_sublist)

lemma displayRecords_shows:
  assumes "r \<in> set (records s)" and "matchesFilter (toLowerCase q) r"
  shows "\<exists>rows. displayRecords s (Str q) = Rendered rows \<and> r \<in> set (shownRecords rows)"
proof -
  from displayRecords_Str [of s q] obtain rows
    where rows: "displayRecords s (Str q) = Rendered rows"
      "shownRecords rows = filter (spec_matches q) (openCursor s)"
    by blast
  from assms have "r \<in> set (filter (spec_matches q) (openCursor s))"
    by (simp add: openCursor_def matchesFilter_spec)
  with rows show ?thesis by auto
qed

text \<open>
  C10. The store holds a record \<open>r\<close> whose \<^verbatim>\<open>studentId\<close> differs from \<open>b\<close> but has the
  same lowercase form, and no record whose \<^verbatim>\<open>studentId\<close> is \<open>b\<close> itself. Then
  \<open>isStudentIdUnique\<close> accepts \<open>b\<close> for every \<open>excludeId\<close>, while it refuses the exact
  spelling of \<open>r\<close> for every \<open>excludeId\<close> other than the key of \<open>r\<close>. The store, too,
  refuses a new record with the exact spelling and, while its key generator can issue a
  key, adds one with \<^verbatim>\<open>studentId\<close> \<open>b\<close> and holds both records afterwards. The
  filter does not tell the two spellings apart: a search for \<open>b\<close> shows \<open>r\<close>.
\<close>

theorem studentId_uniqueness_case_sensitive:
  assumes "store_inv s"
    and "r \<in> set (records s)"
    and "studentId r \<noteq> b"
    and "toLowerCase (studentId r) = toLowerCase b"
    and "\<forall>x \<in> set (records s). studentId x \<noteq> b"
    and "studentId f = b"
  shows "isStudentIdUnique False s b excludeId
    \<and> (Some (id_key r) \<noteq> excludeId \<longrightarrow> \<not> isStudentIdUnique False s (studentId r) excludeId)
    \<and> objectStore_add s (f\<lparr>studentId := studentId r\<rparr>) = Inl ConstraintError
    \<and> (keygen s \<le> maxGeneratedKey \<longrightarrow>
         (\<exists>s'. objectStore_add s f = Inr s' \<and> r \<in> set (records s')
            \<and> with_id f (keygen s) \<in> set (records s')))
    \<and> matchesFilter (toLowerCase b) r
    \<and> (\<exists>rows. displayRecords s (Str b) = Rendered rows \<and> r \<in> set (shownRecords rows))"
proof -
  from assms(5) have "isStudentIdUnique False s b excludeId"
    by (rule isStudentIdUnique_absent)
  moreover have "\<not> isStudentIdUnique False s (studentId r) excludeId"
    if "Some (id_key r) \<noteq> excludeId"
    using isStudentIdUnique_iff [OF assms(1), of "studentId r" excludeId] assms(2) that
    by blast
  moreover have "objectStore_add s (f\<lparr>studentId := studentId r\<rparr>) = Inl ConstraintError"
    using objectStore_add_held [OF assms(2), of "f\<lparr>studentId := studentId r\<rparr>"] by simp
  moreover from assms(5,6) have fresh: "\<forall>x \<in> set (records s). studentId x \<noteq> studentId f"
    by simp
  have "\<exists>s'. objectStore_add s f = Inr s' \<and> r \<in> set (records s')
          \<and> with_id f (keygen s) \<in> set (records s')"
    if "keygen s \<le> maxGeneratedKey"
    using objectStore_add_fresh [OF assms(1) fresh that] assms(2) by simp
  moreover have m: "matchesFilter (toLowerCase b) r"
    using includes_str_refl [of "toLowerCase b"] assms(4) by (simp add: matchesFilter_def)
  moreover note displayRecords_shows [OF assms(2) m]
  ultimately show ?thesis by blast
qed

theorem studentId_uniqueness_case_sensitive_witness:
  "store_inv store2
   \<and> ann \<in> set (records store2)
   \<and> studentId ann = ''S1''
   \<and> studentId ann \<noteq> ''s1''
   \<and> toLowerCase (studentId ann) = toLowerCase ''s1''
   \<and> \<not> list_ex (\<lambda>x. studentId x = ''s1'') (records store2)
   \<and> studentId ann_lower = ''s1''
   \<and> keygen store2 \<le> maxGeneratedKey
   \<and> isStudentIdUnique False store2 ''s1'' None
   \<and> \<not> isStudentIdUnique False store2 ''S1'' None
   \<and> objectStore_add store2 (ann_lower\<lparr>studentId := ''S1''\<rparr>) = Inl ConstraintError
   \<and> objectStore_add store2 ann_lower
       = Inr \<lparr>records = [ann, bob, with_id ann_lower 3], keygen = 4\<rparr>
   \<and> matchesFilter (toLowerCase ''s1'') ann
   \<and> \<not> matchesFilter (toLowerCase ''s9'') ann
   \<and> displayRecords store2 (Str ''s1'') = Rendered [RecordRow ann]"
proof -
  have h: "store_inv store2" "ann \<in> set (records store2)" "studentId ann \<noteq> ''s1''"
    "toLowerCase (studentId ann) = toLowerCase ''s1''"
    "\<not> list_ex (\<lambda>x. studentId x = ''s1'') (records store2)"
    "studentId ann_lower = ''s1''"
    by code_simp+
  from h(5) have h5: "\<forall>x \<in> set (records store2). studentId x \<noteq> ''s1''"
    by (simp add: list_ex_iff)
  have v: "studentId ann = ''S1''" "id_key ann = 1"
    "objectStore_add store2 ann_lower
       = Inr \<lparr>records = [ann, bob, with_id ann_lower 3], keygen = 4\<rparr>"
    "\<not> matchesFilter (toLowerCase ''s9'') ann"
    "displayRecords store2 (Str ''s1'') = Rendered [RecordRow ann]"
    by code_simp+
  note t = studentId_uniqueness_case_sensitive [OF h(1-4) h5 h(6), of None]
  from t have 1: "isStudentIdUnique False store2 ''s1'' None"
    by blast
  from t have "\<not> isStudentIdUnique False store2 (studentId ann) None"
    by simp
  then have 2: "\<not> isStudentIdUnique False store2 ''S1'' None"
    by (simp add: v(1))
  from t have "objectStore_add store2 (ann_lower\<lparr>studentId := studentId ann\<rparr>)
               = Inl ConstraintError"
    by blast
  then have 3: "objectStore_add store2 (ann_lower\<lparr>studentId := ''S1''\<rparr>) = Inl ConstraintError"
    by (simp add: v(1))
  from t have 4: "matchesFilter (toLowerCase ''s1'') ann"
    by blast
  from h keygen_store2 v 1 2 3 4 show ?thesis by blast
qed

section \<open>Every stored record has its five fields\<close>

lemma fst_form_onsubmit:
  assumes "firstEmpty (entries (formRecord (form st))) = None"
  shows "fst (form_onsubmit fails st)
         = (if \<not> emailRegex_test (email (formRecord (form st))) then st
            else if needsUniqueCheck (form st) (studentId (formRecord (form st)))
                    \<and> \<not> isStudentIdUnique fails (db st) (studentId (formRecord (form st)))
                          (recordId (form st))
            then st
            else case recordId (form st) of
                   Some k \<Rightarrow> fst (updateRecord st (with_id (formRecord (form st)) k))
                 | None \<Rightarrow> fst (createRecord st (formRecord (form st))))"
  using assms
  by (auto simp: form_onsubmit_def Let_def split: prod.splits option.splits)

lemma form_onsubmit_shape:
  "fst (form_onsubmit fails st) = st
   \<or> (nonempty5 (formRecord (form st))
      \<and> (fst (form_onsubmit fails st) = fst (createRecord st (formRecord (form st)))
          \<or> (\<exists>k. fst (form_onsubmit fails st)
                  = fst (updateRecord st (with_id (formRecord (form st)) k)))))"
proof (cases "firstEmpty (entries (formRecord (form st)))")
  case (Some key)
  then show ?thesis by (simp add: form_onsubmit_empty_field)
next
  case None
  then have "nonempty5 (formRecord (form st))"
    by (simp add: firstEmpty_None_iff)
  with fst_form_onsubmit [OF None, of fails] show ?thesis
    by (cases "recordId (form st)") auto
qed

lemma form_onsubmit_persist_nonempty:
  assumes "list_ex isPersist (snd (form_onsubmit fails st))"
  shows "nonempty5 (formRecord (form st))"
proof (rule ccontr)
  assume "\<not> nonempty5 (formRecord (form st))"
  then obtain key where "firstEmpty (entries (formRecord (form st))) = Some key"
    using firstEmpty_None_iff [of "formRecord (form st)"]
    by (cases "firstEmpty (entries (formRecord (form st)))") auto
  from form_onsubmit_empty_field [OF this, of fails] assms show False by simp
qed

lemma db_createRecord:
  "db (fst (createRecord st f)) = db st
   \<or> objectStore_add (db st) f = Inr (db (fst (createRecord st f)))"
  by (cases "objectStore_add (db st) f") (simp_all add: createRecord_def resetForm_def)

lemma db_updateRecord:
  "db (fst (updateRecord st r)) = db st
   \<or> objectStore_put (db st) r = Inr (db (fst (updateRecord st r)))"
  by (cases "objectStore_put (db st) r") (simp_all add: updateRecord_def resetForm_def)

lemma nonempty5_with_id: "nonempty5 (with_id f k) = nonempty5 f"
  by (simp add: nonempty5_def with_id_def)

lemma app_inv_add:
  assumes "store_inv s" and "list_all nonempty5 (records s)" and "nonempty5 f"
    and "objectStore_add s f = Inr s'"
  shows "store_inv s' \<and> list_all nonempty5 (records s')"
proof -
  from objectStore_add_Inr(3) [OF assms(4)]
  have "records s' = insort_key id_key (with_id f (keygen s)) (records s)"
    by simp
  with assms(2,3) have "list_all nonempty5 (records s')"
    by (simp add: list_all_iff set_insort_key nonempty5_with_id)
  with store_inv_add [OF assms(1,4)] show ?thesis by simp
qed

lemma app_inv_put:
  assumes "store_inv s" and "list_all nonempty5 (records s)" and "nonempty5 r"
    and "objectStore_put s r = Inr s'"
  shows "store_inv s' \<and> list_all nonempty5 (records s')"
proof -
  from objectStore_put_Inr(2) [OF assms(4)]
  have "records s' = insort_key id_key r (filter (\<lambda>x. id_key x \<noteq> id_key r) (records s))"
    by simp
  with assms(2,3) have "list_all nonempty5 (records s')"
    by (simp add: list_all_iff set_insort_key)
  with store_inv_put [OF assms(1,4)] show ?thesis by simp
qed

lemma app_inv_form_onsubmit:
  assumes "app_inv st"
  shows "app_inv (fst (form_onsubmit fails st))"
proof -
  let ?f = "formRecord (form st)"
  from assms have inv: "store_inv (db st)" "list_all nonempty5 (records (db st))"
    by (simp_all add: app_inv_def)
  from form_onsubmit_shape [of fails st] consider
    (same) "fst (form_onsubmit fails st) = st"
    | (create) "nonempty5 ?f" "fst (form_onsubmit fails st) = fst (createRecord st ?f)"
    | (update) k where "nonempty5 ?f"
        "fst (form_onsubmit fails st) = fst (updateRecord st (with_id ?f k))"
    by blast
  then show ?thesis
  proof cases
    case same
    with assms show ?thesis by simp
  next
    case create
    from db_createRecord [of st ?f] app_inv_add [OF inv create(1)] inv
    show ?thesis by (auto simp: app_inv_def create(2))
  next
    case update
    from update(1) have "nonempty5 (with_id ?f k)"
      by (simp add: nonempty5_with_id)
    from db_updateRecord [of st "with_id ?f k"] app_inv_put [OF inv this] inv
    show ?thesis by (auto simp: app_inv_def update(2))
  qed
qed

lemma app_inv_deleteRecord: "app_inv st \<Longrightarrow> app_inv (fst (deleteRecord st k))"
  by (auto simp: deleteRecord_eq app_inv_def store_inv_def list_all_iff sorted_filter
      distinct_map_filter)

lemma app_inv_step: "app_inv st \<Longrightarrow> app_inv (step st a)"
proof (cases a)
  case (Submit fails)
  assume "app_inv st"
  with Submit show ?thesis by (simp add: app_inv_form_onsubmit)
next
  case (DeleteClick k confirmed)
  assume "app_inv st"
  with DeleteClick show ?thesis by (simp add: confirmDelete_def app_inv_deleteRecord)
next
  case (EditClick k)
  assume "app_inv st"
  with EditClick show ?thesis
    by (simp add: prepareUpdateForm_def app_inv_def split: option.splits)
qed (simp_all add: app_inv_def resetForm_def)

lemma app_inv_foldl: "app_inv st \<Longrightarrow> app_inv (foldl step st acts)"
  by (induction acts arbitrary: st) (simp_all add: app_inv_step)

lemma app_inv_run: "app_inv (run acts)"
  unfolding run_def
  by (rule app_inv_foldl) (simp add: app_inv_def init_app_def initDB_def store_inv_def)

text \<open>
  C5, as the code has it. The two selects are not trimmed before the presence check: a
  submission whose course select holds white space alone, empty once trimmed, is
  accepted and its record is stored with that course.
\<close>

theorem persisted_fields_counterexample:
  "recordId (form st_blank_course) = None
   \<and> course_value (form st_blank_course) = '' ''
   \<and> trim (course_value (form st_blank_course)) = []
   \<and> list_ex isPersist (snd (form_onsubmit False st_blank_course))
   \<and> records (db (fst (form_onsubmit False st_blank_course)))
       = [ann, bob,
          \<lparr>studentId = ''S3'', fullname = ''Cy Diaz'', email = ''c@d.io'', course = '' '',
           yearLevel = ''1'', id_key = 3\<rparr>]"
proof -
  have "recordId (form st_blank_course) = None"
    "course_value (form st_blank_course) = '' ''"
    "trim (course_value (form st_blank_course)) = []"
    "list_ex isPersist (snd (form_onsubmit False st_blank_course))"
    "records (db (fst (form_onsubmit False st_blank_course)))
       = [ann, bob,
          \<lparr>studentId = ''S3'', fullname = ''Cy Diaz'', email = ''c@d.io'', course = '' '',
           yearLevel = ''1'', id_key = 3\<rparr>]"
    by code_simp+
  then show ?thesis by blast
qed

text \<open>
  C5, amended. A submission that reaches a write has all five fields of its record
  non-empty: \<^verbatim>\<open>studentId\<close>, \<^verbatim>\<open>fullname\<close> and \<^verbatim>\<open>email\<close> after trimming,
  \<^verbatim>\<open>course\<close> and \<^verbatim>\<open>yearLevel\<close> as the two selects give them, untrimmed. And after
  every sequence of actions on the page, started with the empty store, every stored
  record has its five fields non-empty.
\<close>

theorem persisted_fields_nonempty:
  "(list_ex isPersist (snd (form_onsubmit fails st)) \<longrightarrow>
      trim (studentId_value (form st)) \<noteq> [] \<and> trim (fullname_value (form st)) \<noteq> []
      \<and> trim (email_value (form st)) \<noteq> [] \<and> course_value (form st) \<noteq> []
      \<and> yearLevel_value (form st) \<noteq> [])
   \<and> (\<forall>r \<in> set (records (db (run acts))). nonempty5 r)"
proof
  show "list_ex isPersist (snd (form_onsubmit fails st)) \<longrightarrow>
      trim (studentId_value (form st)) \<noteq> [] \<and> trim (fullname_value (form st)) \<noteq> []
      \<and> trim (email_value (form st)) \<noteq> [] \<and> course_value (form st) \<noteq> []
      \<and> yearLevel_value (form st) \<noteq> []"
  proof
    assume "list_ex isPersist (snd (form_onsubmit fails st))"
    then have "nonempty5 (formRecord (form st))"
      by (rule form_onsubmit_persist_nonempty)
    then show "trim (studentId_value (form st)) \<noteq> [] \<and> trim (fullname_value (form st)) \<noteq> []
      \<and> trim (email_value (form st)) \<noteq> [] \<and> course_value (form st) \<noteq> []
      \<and> yearLevel_value (form st) \<noteq> []"
      by (simp add: nonempty5_def formRecord_def)
  qed
  from app_inv_run [of acts] show "\<forall>r \<in> set (records (db (run acts))). nonempty5 r"
    by (simp add: app_inv_def list_all_iff)
qed

theorem persisted_fields_nonempty_witness:
  "list_ex isPersist (snd (form_onsubmit False st_fresh))
   \<and> trim (studentId_value (form st_fresh)) = ''S3''
   \<and> trim (fullname_value (form st_fresh)) = ''Cy Diaz''
   \<and> trim (email_value (form st_fresh)) = ''c@d.io''
   \<and> course_value (form st_fresh) \<noteq> [] \<and> yearLevel_value (form st_fresh) \<noteq> []
   \<and> records (db (run first_create)) = [ann]
   \<and> nonempty5 ann"
proof -
  have p: "list_ex isPersist (snd (form_onsubmit False st_fresh))"
    by code_simp
  have v: "trim (studentId_value (form st_fresh)) = ''S3''"
    "trim (fullname_value (form st_fresh)) = ''Cy Diaz''"
    "trim (email_value (form st_fresh)) = ''c@d.io''"
    "records (db (run first_create)) = [ann]"
    by code_simp+
  from persisted_fields_nonempty [of False st_fresh first_create] p
  have "course_value (form st_fresh) \<noteq> [] \<and> yearLevel_value (form st_fresh) \<noteq> []"
    and "\<forall>r \<in> set (records (db (run first_create))). nonempty5 r"
    by blast+
  with p v show ?thesis by simp
qed

end
